theory Spec2Isabelle
  imports Complex_Main "HOL-Library.Log_Nat" "HOL-Library.Word"
begin

unbundle bit_operations_syntax

section \<open>Native single-precision floats\<close>

text \<open>
  The codec of \<^verbatim>\<open>src/main.cpp\<close> converts between the native \<^verbatim>\<open>float\<close> and one byte.
  A native float is a finite rational, an infinity with its sign, or NaN. The two zeros
  are one value \<open>Finite 0\<close>: the program compares a zero with \<^verbatim>\<open>== 0\<close>, adds and
  multiplies it, and never divides by a computed value, so the sign of a zero is never
  observed.

  Every arithmetic operation of the program on floats is modelled with its rounding
  (\<open>round32\<close>: binary32, round to nearest, ties to even, gradual underflow, overflow to
  infinity); that the operations of the codec are exact is proved, not assumed.
\<close>

datatype float = Finite rat | Infty bool | NaN

text \<open>
  \<^verbatim>\<open>std::frexp\<close> on a finite value: the exponent \<open>e\<close> with \<open>2^(e-1) \<le> |x| < 2^e\<close>
  (lemma \<open>frexp_exp_bounds\<close> below), computed from the bit lengths of numerator and
  denominator; 0 for the argument 0.
\<close>

definition frexp_exp :: "rat \<Rightarrow> int" where
  "frexp_exp x =
     (if x = 0 then 0
      else let (a, b) = quotient_of \<bar>x\<bar>; d = bitlen a - bitlen b
           in if \<bar>x\<bar> < 2 powi d then d else d + 1)"

text \<open>Round to the nearest integer, ties to the even one.\<close>

definition round_even :: "rat \<Rightarrow> int" where
  "round_even q =
     (let n = \<lfloor>q\<rfloor>; r = q - of_int n
      in if r < 1 / 2 then n
         else if 1 / 2 < r then n + 1
         else if even n then n else n + 1)"

text \<open>
  Rounding a rational to binary32: 24 significant bits, the unit in the last place never
  below \<open>2^-149\<close>, and infinity from \<open>2^128\<close> on.
\<close>

definition round32 :: "rat \<Rightarrow> float" where
  "round32 q =
     (if q = 0 then Finite 0
      else let u = max (frexp_exp q - 24) (- 149);
               r = of_int (round_even (q / 2 powi u)) * 2 powi u
           in if 2 powi 128 \<le> \<bar>r\<bar> then Infty (q < 0) else Finite r)"

text \<open>A rational is a binary32 value when rounding leaves it as it is.\<close>

definition is_float32 :: "rat \<Rightarrow> bool" where
  "is_float32 q = (round32 q = Finite q)"

fun float_add :: "float \<Rightarrow> float \<Rightarrow> float" where
  "float_add (Finite x) (Finite y) = round32 (x + y)"
| "float_add NaN _ = NaN"
| "float_add _ NaN = NaN"
| "float_add (Infty s) (Infty t) = (if s = t then Infty s else NaN)"
| "float_add (Infty s) (Finite _) = Infty s"
| "float_add (Finite _) (Infty t) = Infty t"

fun float_mul :: "float \<Rightarrow> float \<Rightarrow> float" where
  "float_mul (Finite x) (Finite y) = round32 (x * y)"
| "float_mul NaN _ = NaN"
| "float_mul _ NaN = NaN"
| "float_mul (Infty s) (Infty t) = Infty (s \<noteq> t)"
| "float_mul (Infty s) (Finite y) = (if y = 0 then NaN else Infty (s \<noteq> (y < 0)))"
| "float_mul (Finite x) (Infty t) = (if x = 0 then NaN else Infty ((x < 0) \<noteq> t))"

text \<open>
  Division is used by the program with the constant divisor \<^verbatim>\<open>8.0f\<close> only; a zero
  divisor gives NaN for \<open>0/0\<close> and an infinity otherwise.
\<close>

fun float_div :: "float \<Rightarrow> float \<Rightarrow> float" where
  "float_div (Finite x) (Finite y) =
     (if y = 0 then (if x = 0 then NaN else Infty (x < 0)) else round32 (x / y))"
| "float_div NaN _ = NaN"
| "float_div _ NaN = NaN"
| "float_div (Infty s) (Infty t) = NaN"
| "float_div (Infty s) (Finite y) = Infty (s \<noteq> (y < 0))"
| "float_div (Finite x) (Infty t) = Finite 0"

fun float_neg :: "float \<Rightarrow> float" where
  "float_neg (Finite x) = Finite (- x)"
| "float_neg (Infty s) = Infty (\<not> s)"
| "float_neg NaN = NaN"

text \<open>\<^verbatim>\<open>std::abs\<close> on a float.\<close>

fun float_abs :: "float \<Rightarrow> float" where
  "float_abs (Finite x) = Finite \<bar>x\<bar>"
| "float_abs (Infty s) = Infty False"
| "float_abs NaN = NaN"

text \<open>The comparisons \<^verbatim>\<open>f == 0\<close> and \<^verbatim>\<open>f < 0\<close>; both are false on NaN.\<close>

fun float_eq_zero :: "float \<Rightarrow> bool" where
  "float_eq_zero (Finite x) = (x = 0)"
| "float_eq_zero _ = False"

fun float_less_zero :: "float \<Rightarrow> bool" where
  "float_less_zero (Finite x) = (x < 0)"
| "float_less_zero (Infty s) = s"
| "float_less_zero NaN = False"

text \<open>The conversion of an \<^verbatim>\<open>int\<close> to \<^verbatim>\<open>float\<close>.\<close>

definition int_to_float :: "int \<Rightarrow> float" where
  "int_to_float i = round32 (of_int i)"

text \<open>
  \<^verbatim>\<open>static_cast<int>\<close> of a float truncates towards zero; the behaviour is undefined
  (\<open>None\<close>) when the truncated value is not an \<^verbatim>\<open>int\<close>, so also for infinities and NaN.
\<close>

fun static_cast_int :: "float \<Rightarrow> int option" where
  "static_cast_int (Finite x) =
     (let t = (if 0 \<le> x then \<lfloor>x\<rfloor> else \<lceil>x\<rceil>)
      in if - (2 ^ 31) \<le> t \<and> t < 2 ^ 31 then Some t else None)"
| "static_cast_int _ = None"

text \<open>
  \<^verbatim>\<open>std::frexp(f, &exponent)\<close>: mantissa in \<open>[1/2, 1)\<close> and exponent of a finite nonzero
  value, \<open>(0, 0)\<close> for zero. For an infinity or NaN the stored exponent is unspecified:
  \<open>None\<close>.
\<close>

fun frexp :: "float \<Rightarrow> (float \<times> int) option" where
  "frexp (Finite x) = Some (Finite (x / 2 powi frexp_exp x), frexp_exp x)"
| "frexp _ = None"

text \<open>\<^verbatim>\<open>std::ldexp(m, e)\<close>: \<open>m * 2^e\<close>, rounded.\<close>

fun ldexp :: "float \<Rightarrow> int \<Rightarrow> float" where
  "ldexp (Finite m) e = round32 (m * 2 powi e)"
| "ldexp (Infty s) e = Infty s"
| "ldexp NaN e = NaN"

section \<open>The class \<^verbatim>\<open>Float8\<close>\<close>

text \<open>An object of the class is its one field \<^verbatim>\<open>uint8_t value\<close>.\<close>

type_synonym float8 = "8 word"

definition EXP_BITS :: nat where
  "EXP_BITS = 4"

definition MANT_BITS :: nat where
  "MANT_BITS = 3"

definition BIAS :: int where
  "BIAS = 7"

declare EXP_BITS_def [simp] MANT_BITS_def [simp] BIAS_def [simp]

text \<open>
  The constructor \<^verbatim>\<open>Float8(float f)\<close>. The expressions on \<^verbatim>\<open>int\<close> are computed on
  \<open>int\<close> and the result is converted to \<^verbatim>\<open>uint8_t\<close> by \<open>word_of_int\<close>. The result is
  \<open>None\<close> where the C++ leaves it open (the exponent that \<^verbatim>\<open>frexp\<close> stores for an
  infinity or NaN, a cast to \<^verbatim>\<open>int\<close> out of range).
\<close>

definition Float8 :: "float \<Rightarrow> float8 option" where
  "Float8 f =
     (if float_eq_zero f then Some 0
      else
        let sign = (if float_less_zero f then 1 else 0 :: int);
            f' = float_abs f
        in case frexp f' of
             None \<Rightarrow> None
           | Some (mantissa, e) \<Rightarrow>
               let exponent = e + BIAS
               in if exponent \<le> 0 then Some 0
                  else if push_bit EXP_BITS 1 \<le> exponent then
                    Some (word_of_int
                      (push_bit 7 sign OR push_bit MANT_BITS (push_bit EXP_BITS 1 - 1)))
                  else
                    case static_cast_int
                           (float_mul mantissa (int_to_float (push_bit MANT_BITS 1))) of
                      None \<Rightarrow> None
                    | Some mant \<Rightarrow>
                        Some (word_of_int
                          (push_bit 7 sign OR push_bit MANT_BITS exponent OR mant)))"

text \<open>The conversion \<^verbatim>\<open>operator float()\<close>; \<^verbatim>\<open>value\<close> is promoted to \<^verbatim>\<open>int\<close>.\<close>

definition operator_float :: "float8 \<Rightarrow> float" where
  "operator_float v =
     (if v = 0 then Finite 0
      else
        let sign = drop_bit 7 (uint v) AND 1;
            exponent = (drop_bit MANT_BITS (uint v) AND (push_bit EXP_BITS 1 - 1)) - BIAS;
            mantissa = float_div (int_to_float (uint v AND (push_bit MANT_BITS 1 - 1)))
                                 (int_to_float (push_bit MANT_BITS 1));
            mantissa' = float_add mantissa (Finite 1);
            result = ldexp mantissa' exponent
        in if sign \<noteq> 0 then float_neg result else result)"

text \<open>\<^verbatim>\<open>operator+\<close> and \<^verbatim>\<open>operator*\<close>.\<close>

definition operator_plus :: "float8 \<Rightarrow> float8 \<Rightarrow> float8 option" where
  "operator_plus a b = Float8 (float_add (operator_float a) (operator_float b))"

definition operator_times :: "float8 \<Rightarrow> float8 \<Rightarrow> float8 option" where
  "operator_times a b = Float8 (float_mul (operator_float a) (operator_float b))"

section \<open>Quantities the properties are stated with\<close>

text \<open>
  The exponent that the constructor compares with 0 and 16 (\<^verbatim>\<open>exponent += BIAS\<close> after
  \<^verbatim>\<open>frexp\<close> of the magnitude), and the mantissa \<^verbatim>\<open>frexp\<close> returns for the magnitude.
\<close>

definition biasedExp :: "rat \<Rightarrow> int" where
  "biasedExp x = frexp_exp \<bar>x\<bar> + BIAS"

definition frexp_mant :: "rat \<Rightarrow> rat" where
  "frexp_mant x = \<bar>x\<bar> / 2 powi frexp_exp \<bar>x\<bar>"

text \<open>The expression on \<^verbatim>\<open>int\<close> that the constructor stores on its third branch.\<close>

definition pack :: "int \<Rightarrow> int \<Rightarrow> int \<Rightarrow> int" where
  "pack s E k = push_bit 7 s OR push_bit MANT_BITS E OR k"

text \<open>
  The number a byte stands for, as section 4.1 of the specification writes \<open>decode\<close>: 0
  for the zero byte, else \<open>\<plusminus> (1 + mantissaField / 8) * 2 ^ (exponentField - 7)\<close>. Lemma
  \<open>operator_float_exact\<close> shows that \<^verbatim>\<open>operator float()\<close> computes it without rounding.
\<close>

definition decode_value :: "float8 \<Rightarrow> rat" where
  "decode_value v =
     (if v = 0 then 0
      else (if drop_bit 7 (uint v) AND 1 \<noteq> 0 then - 1 else 1)
           * (1 + of_int (uint v AND 7) / 8)
           * 2 powi ((drop_bit 3 (uint v) AND 15) - 7))"

text \<open>Encoding a finite value and decoding the byte again.\<close>

definition roundtrip :: "rat \<Rightarrow> float option" where
  "roundtrip x = map_option operator_float (Float8 (Finite x))"

text \<open>
  The mantissa field as section 4.1 of the specification writes it, for the mantissa
  \<open>m\<close> of \<^verbatim>\<open>frexp\<close>.
\<close>

definition spec_mantissa_field :: "rat \<Rightarrow> int" where
  "spec_mantissa_field m = \<lfloor>(m * 2 - 1) * 8\<rfloor>"

text \<open>
  Addition and multiplication as section 4.1 of the specification writes them: the
  encoding of the sum and of the product of the two decoded numbers.
\<close>

definition spec_add :: "float8 \<Rightarrow> float8 \<Rightarrow> float8 option" where
  "spec_add a b = Float8 (Finite (decode_value a + decode_value b))"

definition spec_multiply :: "float8 \<Rightarrow> float8 \<Rightarrow> float8 option" where
  "spec_multiply a b = Float8 (Finite (decode_value a * decode_value b))"

section \<open>The allocation counters and the optimized workload\<close>

text \<open>
  \<^verbatim>\<open>size_t\<close> is an unsigned 64-bit integer; \<open>+=\<close> wraps. The state is the two static
  counters of \<^verbatim>\<open>MemoryManager\<close> and, as the effect on the outside, the calls made to
  \<^verbatim>\<open>std::malloc\<close> and \<^verbatim>\<open>std::free\<close>, in order. Allocation is taken to succeed (the
  program does not check the pointer), and the mutex has no effect on a single thread.
\<close>

type_synonym size_t = "64 word"

datatype mem_call = Malloc size_t | Free

record memory_manager =
  totalAllocated :: size_t
  totalFreed :: size_t
  memCalls :: "mem_call list"

definition allocate :: "size_t \<Rightarrow> memory_manager \<Rightarrow> memory_manager" where
  "allocate sz s =
     s\<lparr>totalAllocated := totalAllocated s + sz, memCalls := memCalls s @ [Malloc sz]\<rparr>"

definition deallocate :: "size_t \<Rightarrow> memory_manager \<Rightarrow> memory_manager" where
  "deallocate sz s =
     s\<lparr>totalFreed := totalFreed s + sz, memCalls := memCalls s @ [Free]\<rparr>"

definition resetMemoryTracking :: "memory_manager \<Rightarrow> memory_manager" where
  "resetMemoryTracking s = s\<lparr>totalAllocated := 0, totalFreed := 0\<rparr>"

text \<open>\<^verbatim>\<open>sizeof(Float8)\<close>: the class has the one \<^verbatim>\<open>uint8_t\<close> field and no virtual function.\<close>

definition sizeof_Float8 :: size_t where
  "sizeof_Float8 = 1"

text \<open>
  The expression \<^verbatim>\<open>new Float8[n]\<close> calls \<^verbatim>\<open>Float8::operator new[]\<close>, which calls
  \<^verbatim>\<open>allocate\<close>, with \<open>n * sizeof(Float8)\<close> plus an overhead that the language leaves to
  the implementation (C++ [expr.new]); it is the parameter \<open>cookie\<close> here. Under the
  Itanium C++ ABI (GCC and Clang) the overhead is a cookie of \<open>sizeof(size_t) = 8\<close> bytes
  whenever the class's array deallocation function takes the size as its second argument,
  as \<^verbatim>\<open>Float8::operator delete[](void*, size_t)\<close> does. The elements are then
  default-constructed, that is, by \<^verbatim>\<open>Float8(0.0f)\<close>.
  \<^verbatim>\<open>delete[]\<close> passes the same size to \<^verbatim>\<open>operator delete[]\<close>, which calls
  \<^verbatim>\<open>deallocate\<close>.
\<close>

definition array_size :: "size_t \<Rightarrow> nat \<Rightarrow> size_t" where
  "array_size cookie n = of_nat n * sizeof_Float8 + cookie"

definition new_array ::
  "size_t \<Rightarrow> nat \<Rightarrow> memory_manager \<Rightarrow> (memory_manager \<times> float8 list) option" where
  "new_array cookie n s =
     (case Float8 (Finite 0) of
        None \<Rightarrow> None
      | Some z \<Rightarrow> Some (allocate (array_size cookie n) s, replicate n z))"

definition delete_array :: "size_t \<Rightarrow> nat \<Rightarrow> memory_manager \<Rightarrow> memory_manager" where
  "delete_array cookie n s = deallocate (array_size cookie n) s"

text \<open>
  The inner loop \<^verbatim>\<open>for (j = 0; j < 1000; ++j) data[j] = static_cast<float>(j)\<close>, over the
  list of its indices; writing outside the array is undefined (\<open>None\<close>).
\<close>

fun write_loop :: "nat list \<Rightarrow> float8 list \<Rightarrow> float8 list option" where
  "write_loop [] data = Some data"
| "write_loop (j # js) data =
     (if j < length data then
        (case Float8 (int_to_float (int j)) of
           None \<Rightarrow> None
         | Some v \<Rightarrow> write_loop js (data[j := v]))
      else None)"

text \<open>The outer loop, \<open>iters\<close> times the inner one.\<close>

fun outer_loop :: "nat \<Rightarrow> float8 list \<Rightarrow> float8 list option" where
  "outer_loop 0 data = Some data"
| "outer_loop (Suc i) data =
     (case write_loop [0..<1000] data of
        None \<Rightarrow> None
      | Some data' \<Rightarrow> outer_loop i data')"

text \<open>
  \<^verbatim>\<open>optimizedMemoryUsage\<close> with the number of outer iterations as a parameter, and the
  function of the program, which has 1000000 of them. The text printed at the end does
  not change the state.
\<close>

definition optimizedMemoryUsage_iters ::
  "nat \<Rightarrow> size_t \<Rightarrow> memory_manager \<Rightarrow> memory_manager option" where
  "optimizedMemoryUsage_iters iters cookie s =
     (case new_array cookie 1000 s of
        None \<Rightarrow> None
      | Some (s1, data) \<Rightarrow>
          (case outer_loop iters data of
             None \<Rightarrow> None
           | Some data' \<Rightarrow> Some (delete_array cookie 1000 s1)))"

definition optimizedMemoryUsage :: "size_t \<Rightarrow> memory_manager \<Rightarrow> memory_manager option" where
  "optimizedMemoryUsage cookie s = optimizedMemoryUsage_iters 1000000 cookie s"

section \<open>Powers of two and the exponent of \<^verbatim>\<open>frexp\<close>\<close>

text \<open>
  \<open>frexp_exp\<close> is the exponent of \<^verbatim>\<open>frexp\<close>: the one \<open>e\<close> with
  \<open>2^(e-1) \<le> |x| < 2^e\<close>.
\<close>

lemma powi2_less_iff: "(2::rat) powi a < 2 powi b \<longleftrightarrow> a < b"
  by (metis linorder_not_less one_less_numeral_iff order_less_le power_int_increasing power_int_strict_increasing semiring_norm(76))

lemma powi2_le_iff: "(2::rat) powi a \<le> 2 powi b \<longleftrightarrow> a \<le> b"
  using powi2_less_iff [of b a] by (auto simp: not_less [symmetric])

lemma powi2_add: "(2::rat) powi (a + b) = 2 powi a * 2 powi b"
  by (simp add: power_int_add)

lemma powi2_diff: "(2::rat) powi (a - b) = 2 powi a / 2 powi b"
  by (simp add: power_int_diff)

lemma bitlen_powi_bounds:
  assumes "0 < a"
  shows "(2::rat) powi (bitlen a - 1) \<le> of_int a" and "of_int a < (2::rat) powi bitlen a"
proof -
  from bitlen_bounds [OF assms]
  have lo: "2 ^ nat (bitlen a - 1) \<le> a" and hi: "a < 2 ^ nat (bitlen a)" by auto
  have b1: "1 \<le> bitlen a" using assms by (auto simp: bitlen_alt_def)
  have "(2::rat) powi (bitlen a - 1) = 2 ^ nat (bitlen a - 1)"
    using b1 by (simp add: power_int_nonneg_exp)
  also have "\<dots> = of_int (2 ^ nat (bitlen a - 1))" by simp
  also have "\<dots> \<le> of_int a" using lo by (simp only: of_int_le_iff)
  finally show "(2::rat) powi (bitlen a - 1) \<le> of_int a" .
  have "(of_int a :: rat) < of_int (2 ^ nat (bitlen a))" using hi by (simp only: of_int_less_iff)
  also have "\<dots> = 2 powi bitlen a" using b1 by (simp add: power_int_nonneg_exp)
  finally show "of_int a < (2::rat) powi bitlen a" .
qed

lemma frexp_exp_bounds:
  assumes "x \<noteq> 0"
  shows "2 powi (frexp_exp x - 1) \<le> \<bar>x\<bar> \<and> \<bar>x\<bar> < 2 powi frexp_exp x"
proof -
  obtain a b where q: "quotient_of \<bar>x\<bar> = (a, b)" by force
  have bpos: "0 < b" using quotient_of_denom_pos [OF q] .
  have xab: "\<bar>x\<bar> = of_int a / of_int b" using quotient_of_div [OF q] .
  have apos: "0 < a"
  proof -
    have "0 < \<bar>x\<bar>" using assms by simp
    then have "0 < (of_int a :: rat) / of_int b" using xab by simp
    then show ?thesis using bpos by (simp add: zero_less_divide_iff)
  qed
  define d where "d = bitlen a - bitlen b"
  have bq: "0 < (of_int b :: rat)" using bpos by simp
  have lo: "(2::rat) powi (d - 1) \<le> \<bar>x\<bar>"
  proof -
    have "(2::rat) powi (d - 1) * of_int b \<le> 2 powi (d - 1) * 2 powi bitlen b"
      using bitlen_powi_bounds(2) [OF bpos] by (simp add: mult_left_mono)
    also have "\<dots> = 2 powi (bitlen a - 1)"
      by (simp add: d_def powi2_add [symmetric])
    also have "\<dots> \<le> of_int a" using bitlen_powi_bounds(1) [OF apos] .
    finally show ?thesis using bq by (simp add: xab pos_le_divide_eq)
  qed
  have hi: "\<bar>x\<bar> < (2::rat) powi (d + 1)"
  proof -
    have "of_int a < (2::rat) powi bitlen a" using bitlen_powi_bounds(2) [OF apos] .
    also have "\<dots> = 2 powi (d + 1) * 2 powi (bitlen b - 1)"
      by (simp add: d_def powi2_add [symmetric])
    also have "\<dots> \<le> 2 powi (d + 1) * of_int b"
      using bitlen_powi_bounds(1) [OF bpos] by (simp add: mult_left_mono)
    finally show ?thesis using bq by (simp add: xab pos_divide_less_eq)
  qed
  have e: "frexp_exp x = (if \<bar>x\<bar> < 2 powi d then d else d + 1)"
    using assms q by (simp add: frexp_exp_def d_def)
  show ?thesis
  proof (cases "\<bar>x\<bar> < 2 powi d")
    case True
    then show ?thesis using lo e by simp
  next
    case False
    then show ?thesis using hi e by simp
  qed
qed

lemma frexp_exp_unique:
  assumes "2 powi (e - 1) \<le> \<bar>x\<bar>" and "\<bar>x\<bar> < 2 powi e"
  shows "frexp_exp x = e"
proof -
  have x0: "x \<noteq> 0" using assms(1) powi2_less_iff
    by (metis abs_zero not_le zero_less_numeral zero_less_power_int)
  from frexp_exp_bounds [OF x0]
  have lo: "2 powi (frexp_exp x - 1) \<le> \<bar>x\<bar>" and hi: "\<bar>x\<bar> < 2 powi frexp_exp x" by auto
  have "(2::rat) powi (e - 1) < 2 powi frexp_exp x" using assms(1) hi by simp
  then have 1: "e - 1 < frexp_exp x" by (simp only: powi2_less_iff)
  have "(2::rat) powi (frexp_exp x - 1) < 2 powi e" using lo assms(2) by simp
  then have 2: "frexp_exp x - 1 < e" by (simp only: powi2_less_iff)
  show ?thesis using 1 2 by simp
qed

section \<open>Values that binary32 holds exactly\<close>

text \<open>
  An integer of fewer than 25 bits times a power of two from \<open>2^-149\<close> on, below
  \<open>2^128\<close>, is not changed by rounding; and every nonzero binary32 value has this form,
  with the unit in the last place as the power of two.
\<close>

lemma round_even_of_int: "round_even (of_int n) = n"
  by (simp add: round_even_def)

lemma frexp_exp_abs: "frexp_exp \<bar>x\<bar> = frexp_exp x"
  by (simp add: frexp_exp_def)

lemma round32_exact:
  assumes n: "\<bar>n\<bar> < 2 ^ 24" and j: "- 149 \<le> j"
    and hi: "\<bar>of_int n * 2 powi j :: rat\<bar> < 2 powi 128"
  shows "round32 (of_int n * 2 powi j) = Finite (of_int n * 2 powi j)"
proof (cases "n = 0")
  case True
  then show ?thesis by (simp add: round32_def)
next
  case False
  define x :: rat where "x = of_int n * 2 powi j"
  have x0: "x \<noteq> 0" using False by (simp add: x_def)
  define u where "u = max (frexp_exp x - 24) (- 149)"
  have "\<bar>x\<bar> = of_int \<bar>n\<bar> * 2 powi j" by (simp add: x_def abs_mult)
  also have "\<dots> < of_int (2 ^ 24) * 2 powi j"
    using n by (intro mult_strict_right_mono) (simp_all only: of_int_less_iff zero_less_power_int zero_less_numeral)
  also have "\<dots> = 2 powi (24 + j)" by (simp add: powi2_add)
  finally have "\<bar>x\<bar> < 2 powi (24 + j)" .
  with frexp_exp_bounds [OF x0] have "(2::rat) powi (frexp_exp x - 1) < 2 powi (24 + j)" by simp
  then have "frexp_exp x - 1 < 24 + j" by (simp only: powi2_less_iff)
  then have uj: "u \<le> j" using j by (simp add: u_def)
  have "x / 2 powi u = of_int n * 2 powi (j - u)" by (simp add: x_def powi2_diff)
  also have "\<dots> = of_int n * 2 ^ nat (j - u)" using uj by (simp add: power_int_nonneg_exp)
  also have "\<dots> = of_int (n * 2 ^ nat (j - u))" by simp
  finally have q: "x / 2 powi u = of_int (n * 2 ^ nat (j - u))" .
  have r: "of_int (round_even (x / 2 powi u)) * 2 powi u = x"
    unfolding q round_even_of_int unfolding q [symmetric] by simp
  have "round32 x = Finite x"
    using x0 hi r unfolding round32_def u_def [symmetric] x_def [symmetric] Let_def
    by (simp add: not_le [symmetric])
  then show ?thesis by (simp add: x_def)
qed

lemma is_float32_intro:
  assumes "\<bar>n\<bar> < 2 ^ 24" and "- 149 \<le> j" and "\<bar>of_int n * 2 powi j :: rat\<bar> < 2 powi 128"
  shows "is_float32 (of_int n * 2 powi j)"
  unfolding is_float32_def using assms by (rule round32_exact)

lemma is_float32_elim:
  assumes f: "is_float32 x" and x0: "x \<noteq> 0"
  obtains n where "x = of_int n * 2 powi (max (frexp_exp x - 24) (- 149))"
    and "\<bar>n\<bar> < 2 ^ 24"
proof -
  define u where "u = max (frexp_exp x - 24) (- 149)"
  define n where "n = round_even (x / 2 powi u)"
  have xn: "x = of_int n * 2 powi u"
    using f x0 unfolding is_float32_def round32_def Let_def u_def [symmetric] n_def [symmetric]
    by (simp split: if_splits)
  have "of_int \<bar>n\<bar> * (2::rat) powi u = \<bar>x\<bar>" by (simp add: xn abs_mult)
  also have "\<dots> < 2 powi frexp_exp x" using frexp_exp_bounds [OF x0] by simp
  also have "\<dots> = 2 powi (frexp_exp x - u) * 2 powi u" by (simp add: powi2_add [symmetric])
  finally have "of_int \<bar>n\<bar> < (2::rat) powi (frexp_exp x - u)" by simp
  also have "\<dots> \<le> 2 powi 24" by (simp only: powi2_le_iff) (simp add: u_def)
  finally have "(of_int \<bar>n\<bar> :: rat) < of_int (2 ^ 24)" by simp
  then have "\<bar>n\<bar> < 2 ^ 24" by (simp only: of_int_less_iff)
  with xn show ?thesis using that by (simp add: u_def)
qed

section \<open>The conversion to \<^verbatim>\<open>float\<close> is exact\<close>

text \<open>
  The division by 8, the addition of 1 and \<^verbatim>\<open>ldexp\<close> in \<^verbatim>\<open>operator float()\<close> do not
  round: the result is the number the byte stands for.
\<close>

lemma round32_exact_small:
  assumes n: "\<bar>n\<bar> < 2 ^ 24" and j: "- 149 \<le> j" "j \<le> 104"
  shows "round32 (of_int n * 2 powi j) = Finite (of_int n * 2 powi j)"
proof (rule round32_exact [OF n j(1)])
  have "\<bar>of_int n * 2 powi j :: rat\<bar> = of_int \<bar>n\<bar> * 2 powi j" by (simp add: abs_mult)
  also have "\<dots> \<le> of_int \<bar>n\<bar> * 2 powi 104"
    using j(2) by (intro mult_left_mono) (simp_all only: powi2_le_iff of_int_0_le_iff abs_ge_zero)
  also have "\<dots> < of_int (2 ^ 24) * 2 powi 104"
    using n by (intro mult_strict_right_mono) (simp_all only: of_int_less_iff zero_less_power_int zero_less_numeral)
  also have "\<dots> = 2 powi 128" by simp
  finally show "\<bar>of_int n * 2 powi j :: rat\<bar> < 2 powi 128" .
qed

lemma int_to_float_exact: "\<bar>i\<bar> < 2 ^ 24 \<Longrightarrow> int_to_float i = Finite (of_int i)"
  using round32_exact_small [of i 0] by (simp add: int_to_float_def)

lemma field_bounds:
  "0 \<le> uint (v::float8) AND 7" "uint v AND 7 \<le> 7"
  "0 \<le> drop_bit 3 (uint v) AND 15" "drop_bit 3 (uint v) AND 15 \<le> 15"
  by (simp_all add: AND_upper2')

lemma operator_float_exact: "operator_float v = Finite (decode_value v)"
proof (cases "v = 0")
  case True
  then show ?thesis by (simp add: operator_float_def decode_value_def)
next
  case False
  define k where "k = uint v AND 7"
  define E where "E = drop_bit 3 (uint v) AND 15"
  have k: "0 \<le> k" "k \<le> 7" and E: "0 \<le> E" "E \<le> 15"
    using field_bounds [of v] by (simp_all add: k_def E_def)
  have 1: "int_to_float k = Finite (of_int k)" using k by (simp add: int_to_float_exact)
  have 2: "int_to_float 8 = Finite 8" using int_to_float_exact [of 8] by simp
  have 3: "round32 (of_int k / 8) = Finite (of_int k / 8)"
    using round32_exact_small [of k "- 3"] k by simp
  have 4: "round32 (of_int k / 8 + 1) = Finite (of_int k / 8 + 1)"
    using round32_exact_small [of "k + 8" "- 3"] k by (simp add: field_simps)
  have p: "(2::rat) powi (E - 7) = 8 * 2 powi (E - 10)"
    using powi2_add [of 3 "E - 10"] by simp
  have eq: "(of_int k / 8 + 1) * 2 powi (E - 7) = (of_int (k + 8) :: rat) * 2 powi (E - 10)"
    by (simp add: p field_simps)
  have 5: "round32 ((of_int k / 8 + 1) * 2 powi (E - 7)) = Finite ((of_int k / 8 + 1) * 2 powi (E - 7))"
    unfolding eq using round32_exact_small [of "k + 8" "E - 10"] k E by simp
  show ?thesis
    using False 1 2 3 4 5
    by (simp add: operator_float_def decode_value_def Let_def k_def [symmetric] E_def [symmetric] field_simps)
qed

section \<open>The three branches of the constructor\<close>

text \<open>
  On a binary32 value the product \<^verbatim>\<open>mantissa * 8\<close> does not round and the cast to
  \<^verbatim>\<open>int\<close> is defined, so the constructor returns a byte on each of its branches.
\<close>

lemma frexp_mant_bounds:
  assumes "x \<noteq> 0"
  shows "1 / 2 \<le> frexp_mant x" and "frexp_mant x < 1"
proof -
  let ?e = "frexp_exp x"
  from frexp_exp_bounds [OF assms]
  have lo: "2 powi (?e - 1) \<le> \<bar>x\<bar>" and hi: "\<bar>x\<bar> < 2 powi ?e" by auto
  have "(2::rat) powi (?e - 1) = 2 powi ?e / 2" by (simp add: powi2_diff)
  with lo have "2 powi ?e / 2 \<le> \<bar>x\<bar>" by simp
  then show "1 / 2 \<le> frexp_mant x"
    by (simp add: frexp_mant_def frexp_exp_abs pos_le_divide_eq)
  show "frexp_mant x < 1"
    using hi by (simp add: frexp_mant_def frexp_exp_abs pos_divide_less_eq)
qed

lemma Float8_underflow:
  assumes "x \<noteq> 0" and "biasedExp x \<le> 0"
  shows "Float8 (Finite x) = Some 0"
  using assms by (simp add: Float8_def biasedExp_def Let_def)

lemma Float8_overflow:
  assumes "x \<noteq> 0" and "16 \<le> biasedExp x"
  shows "Float8 (Finite x) = Some (if x < 0 then 0xF8 else 0x78)"
  using assms by (simp add: Float8_def biasedExp_def Let_def)

lemma mant_mul_exact:
  assumes f: "is_float32 x" and x0: "x \<noteq> 0"
  shows "round32 (frexp_mant x * 8) = Finite (frexp_mant x * 8)"
proof -
  define e where "e = frexp_exp x"
  define u where "u = max (e - 24) (- 149)"
  from is_float32_elim [OF f x0] obtain n
    where xn: "x = of_int n * 2 powi u" and n: "\<bar>n\<bar> < 2 ^ 24"
    unfolding u_def e_def by blast
  have m: "frexp_mant x = \<bar>x\<bar> / 2 powi e"
    by (simp add: frexp_mant_def frexp_exp_abs e_def)
  have ax: "\<bar>x\<bar> = of_int \<bar>n\<bar> * 2 powi u" by (subst xn) (simp add: abs_mult)
  have "frexp_mant x * 8 = of_int \<bar>n\<bar> * (2 powi u / 2 powi e * 2 powi 3)"
    unfolding m ax by simp
  also have "\<dots> = of_int \<bar>n\<bar> * 2 powi (u - e + 3)"
    by (simp only: powi2_add powi2_diff)
  finally have eq: "frexp_mant x * 8 = of_int \<bar>n\<bar> * 2 powi (u - e + 3)" .
  have j: "- 149 \<le> u - e + 3" "u - e + 3 \<le> 104"
  proof -
    have "e - 24 \<le> u" by (simp add: u_def)
    then show "- 149 \<le> u - e + 3" by simp
    have "\<bar>x\<bar> < 2 powi e" using frexp_exp_bounds [OF x0] by (simp add: e_def)
    moreover have "(2::rat) powi u \<le> \<bar>x\<bar>"
    proof -
      have "1 \<le> \<bar>n\<bar>" using x0 xn by (cases "n = 0") auto
      then have "(1::rat) \<le> of_int \<bar>n\<bar>" by (simp only: of_int_1_le_iff)
      then have "1 * (2::rat) powi u \<le> of_int \<bar>n\<bar> * 2 powi u"
        by (intro mult_right_mono) simp_all
      then show ?thesis by (simp add: ax)
    qed
    ultimately have "(2::rat) powi u < 2 powi e" by simp
    then have "u < e" by (simp only: powi2_less_iff)
    then show "u - e + 3 \<le> 104" by simp
  qed
  have "\<bar>\<bar>n\<bar>\<bar> < 2 ^ 24" using n by simp
  from round32_exact_small [OF this j] show ?thesis unfolding eq .
qed

lemma floor_mant_bounds:
  assumes "x \<noteq> 0"
  shows "4 \<le> \<lfloor>frexp_mant x * 8\<rfloor>" and "\<lfloor>frexp_mant x * 8\<rfloor> \<le> 7"
proof -
  from frexp_mant_bounds [OF assms]
  have "4 \<le> frexp_mant x * 8" and "frexp_mant x * 8 < 8" by simp_all
  then show "4 \<le> \<lfloor>frexp_mant x * 8\<rfloor>" and "\<lfloor>frexp_mant x * 8\<rfloor> \<le> 7"
    by (simp_all add: le_floor_iff floor_le_iff)
qed

lemma Float8_normal:
  assumes f: "is_float32 x" and x0: "x \<noteq> 0"
    and lo: "0 < biasedExp x" and hi: "biasedExp x < 16"
  shows "Float8 (Finite x) =
    Some (word_of_int (push_bit 7 (if x < 0 then 1 else 0) OR push_bit 3 (biasedExp x)
                       OR \<lfloor>frexp_mant x * 8\<rfloor>))"
proof -
  have 8: "int_to_float 8 = Finite 8" using int_to_float_exact [of 8] by simp
  have "0 \<le> frexp_mant x * 8" using frexp_mant_bounds(1) [OF x0] by simp
  moreover note floor_mant_bounds [OF x0]
  ultimately have c: "static_cast_int (Finite (frexp_mant x * 8)) = Some \<lfloor>frexp_mant x * 8\<rfloor>"
    by simp
  show ?thesis
    using x0 lo hi mant_mul_exact [OF f x0] c
    by (simp add: Float8_def Let_def 8 biasedExp_def frexp_mant_def [symmetric])
qed

section \<open>The fields of a packed byte\<close>

text \<open>
  With a sign of one bit, an exponent of four bits and a mantissa of three bits, the
  three fields of the packed byte do not overlap, and the conversion reads them back.
\<close>

lemma small_cases:
  "0 \<le> (s::int) \<Longrightarrow> s \<le> 1 \<Longrightarrow> s = 0 \<or> s = 1"
  "0 \<le> (k::int) \<Longrightarrow> k \<le> 7 \<Longrightarrow> k = 0 \<or> k = 1 \<or> k = 2 \<or> k = 3 \<or> k = 4 \<or> k = 5 \<or> k = 6 \<or> k = 7"
  "0 \<le> (E::int) \<Longrightarrow> E \<le> 15 \<Longrightarrow> E = 0 \<or> E = 1 \<or> E = 2 \<or> E = 3 \<or> E = 4 \<or> E = 5 \<or> E = 6 \<or> E = 7
     \<or> E = 8 \<or> E = 9 \<or> E = 10 \<or> E = 11 \<or> E = 12 \<or> E = 13 \<or> E = 14 \<or> E = 15"
  by presburger+

lemma pack_eq:
  assumes "0 \<le> s" "s \<le> 1" "0 \<le> E" "E \<le> 15" "0 \<le> k" "k \<le> 7"
  shows "pack s E k = 128 * s + 8 * E + k"
  using small_cases(1) [OF assms(1,2)] small_cases(3) [OF assms(3,4)] small_cases(2) [OF assms(5,6)]
  by (elim disjE) (simp_all add: pack_def)

lemma int_and_masks:
  "(x::int) AND 7 = x mod 8" "(x::int) AND 15 = x mod 16" "(x::int) AND 1 = x mod 2"
  using take_bit_eq_mask [of 3 x] take_bit_eq_mask [of 4 x] take_bit_eq_mask [of 1 x]
  by (simp_all add: take_bit_eq_mod mask_eq_exp_minus_1)

lemma field_arith:
  fixes s E k :: int
  assumes "0 \<le> s" "s \<le> 1" "0 \<le> E" "E \<le> 15" "0 \<le> k" "k \<le> 7"
  shows "(128 * s + 8 * E + k) mod 8 = k"
    and "(128 * s + 8 * E + k) div 8 mod 16 = E"
    and "(128 * s + 8 * E + k) div 128 mod 2 = s"
proof -
  show "(128 * s + 8 * E + k) mod 8 = k"
    using assms by (intro int_mod_pos_eq [where q = "16 * s + E"]) simp_all
  have "(128 * s + 8 * E + k) div 8 = 16 * s + E"
    using assms by (intro int_div_pos_eq [where r = k]) simp_all
  moreover have "(16 * s + E) mod 16 = E"
    using assms by (intro int_mod_pos_eq [where q = s]) simp_all
  ultimately show "(128 * s + 8 * E + k) div 8 mod 16 = E" by simp
  have "(128 * s + 8 * E + k) div 128 = s"
    using assms by (intro int_div_pos_eq [where r = "8 * E + k"]) simp_all
  moreover have "s mod 2 = s" using assms by simp
  ultimately show "(128 * s + 8 * E + k) div 128 mod 2 = s" by simp
qed

lemma pack_fields:
  assumes "0 \<le> s" "s \<le> 1" "0 \<le> E" "E \<le> 15" "0 \<le> k" "k \<le> 7"
  defines "v \<equiv> (word_of_int (pack s E k) :: float8)"
  shows "uint v = 128 * s + 8 * E + k"
    and "uint v AND 7 = k"
    and "drop_bit 3 (uint v) AND 15 = E"
    and "drop_bit 7 (uint v) AND 1 = s"
proof -
  have "0 \<le> 128 * s + 8 * E + k" "128 * s + 8 * E + k < 256" using assms(1-6) by auto
  moreover have g: "uint (word_of_int y :: float8) = y mod 256" for y
    by (simp add: uint_word_of_int)
  ultimately show u: "uint v = 128 * s + 8 * E + k"
    unfolding v_def g pack_eq [OF assms(1-6)] by simp
  show "uint v AND 7 = k"
    unfolding u int_and_masks by (rule field_arith(1) [OF assms(1-6)])
  show "drop_bit 3 (uint v) AND 15 = E"
    unfolding u int_and_masks drop_bit_eq_div using field_arith(2) [OF assms(1-6)] by simp
  show "drop_bit 7 (uint v) AND 1 = s"
    unfolding u int_and_masks drop_bit_eq_div using field_arith(3) [OF assms(1-6)] by simp
qed

section \<open>Encoding and decoding again, branch by branch\<close>

lemma biasedExp_small:
  assumes "x \<noteq> 0" and "\<bar>x\<bar> < 1 / 128"
  shows "biasedExp x \<le> 0"
proof -
  have "(2::rat) powi (frexp_exp x - 1) \<le> \<bar>x\<bar>" using frexp_exp_bounds [OF assms(1)] by simp
  also have "\<bar>x\<bar> < 2 powi (- 7)" using assms(2) by simp
  finally have "frexp_exp x - 1 < - 7" by (simp only: powi2_less_iff)
  then show ?thesis by (simp add: biasedExp_def frexp_exp_abs)
qed

lemma biasedExp_large:
  assumes "1 / 128 \<le> \<bar>x\<bar>"
  shows "0 < biasedExp x"
proof -
  have x0: "x \<noteq> 0" using assms by auto
  have "(2::rat) powi (- 7) \<le> \<bar>x\<bar>" using assms by simp
  also have "\<bar>x\<bar> < 2 powi frexp_exp x" using frexp_exp_bounds [OF x0] by simp
  finally have "- 7 < frexp_exp x" by (simp only: powi2_less_iff)
  then show ?thesis by (simp add: biasedExp_def frexp_exp_abs)
qed

lemma Float8_normal_pack:
  assumes "is_float32 x" and "x \<noteq> 0" and "0 < biasedExp x" and "biasedExp x < 16"
  shows "Float8 (Finite x) =
    Some (word_of_int (pack (if x < 0 then 1 else 0) (biasedExp x) \<lfloor>frexp_mant x * 8\<rfloor>))"
  using Float8_normal [OF assms] by (simp add: pack_def)

lemma decode_value_pack:
  assumes s: "0 \<le> s" "s \<le> 1" and E: "0 < E" "E \<le> 15" and k: "0 \<le> k" "k \<le> 7"
  shows "decode_value (word_of_int (pack s E k)) =
    (if s \<noteq> 0 then - 1 else 1) * (1 + of_int k / 8) * 2 powi (E - 7)"
proof -
  define v :: float8 where "v = word_of_int (pack s E k)"
  have E0: "0 \<le> E" using E by simp
  note f = pack_fields [OF s E0 E(2) k, folded v_def]
  have "uint v \<noteq> 0" using f(1) s E k by simp
  then have "v \<noteq> 0" by auto
  then show ?thesis
    unfolding v_def [symmetric] decode_value_def f(2,3,4) by simp
qed

lemma decode_value_overflow: "decode_value 0x78 = 256" "decode_value 0xF8 = - 256"
  by (simp_all add: decode_value_def int_and_masks drop_bit_eq_div)

lemma roundtrip_underflow:
  assumes "x \<noteq> 0" and "biasedExp x \<le> 0"
  shows "roundtrip x = Some (Finite 0)"
  using Float8_underflow [OF assms] by (simp add: roundtrip_def operator_float_def)

lemma roundtrip_overflow:
  assumes "x \<noteq> 0" and "16 \<le> biasedExp x"
  shows "roundtrip x = Some (Finite (if x < 0 then - 256 else 256))"
  using Float8_overflow [OF assms]
  by (simp add: roundtrip_def operator_float_exact decode_value_overflow)

lemma roundtrip_normal:
  assumes "is_float32 x" and "x \<noteq> 0" and "0 < biasedExp x" and "biasedExp x < 16"
  shows "roundtrip x =
    Some (Finite ((if x < 0 then - 1 else 1) * (1 + of_int \<lfloor>frexp_mant x * 8\<rfloor> / 8)
                  * 2 powi (biasedExp x - 7)))"
proof -
  note m = floor_mant_bounds [OF assms(2)]
  have k: "0 \<le> \<lfloor>frexp_mant x * 8\<rfloor>" using m(1) by simp
  have E: "biasedExp x \<le> 15" using assms(4) by simp
  have s: "0 \<le> (if x < 0 then 1 else 0 :: int)" "(if x < 0 then 1 else 0 :: int) \<le> 1" by simp_all
  show ?thesis
    unfolding roundtrip_def Float8_normal_pack [OF assms] option.map operator_float_exact
      decode_value_pack [OF s assms(3) E k m(2)]
    by simp
qed

section \<open>Sums and products of decoded bytes\<close>

lemma Float8_total:
  assumes "is_float32 x"
  shows "\<exists>v. Float8 (Finite x) = Some v"
proof (cases "x = 0")
  case True
  then show ?thesis by (simp add: Float8_def)
next
  case False
  consider "biasedExp x \<le> 0" | "16 \<le> biasedExp x" | "0 < biasedExp x" "biasedExp x < 16"
    by linarith
  then show ?thesis
  proof cases
    case 1
    then show ?thesis using Float8_underflow [OF False] by simp
  next
    case 2
    then show ?thesis using Float8_overflow [OF False] by simp
  next
    case 3
    then show ?thesis using Float8_normal [OF assms False] by simp
  qed
qed

lemma decode_value_repr:
  "\<exists>n j. decode_value v = of_int n * 2 powi j \<and> \<bar>n\<bar> \<le> 15 \<and> - 10 \<le> j \<and> j \<le> 5"
proof (cases "v = 0")
  case True
  have "decode_value v = of_int 0 * 2 powi 0" using True by (simp add: decode_value_def)
  then show ?thesis by (intro exI [of _ 0]) simp
next
  case False
  define k where "k = uint v AND 7"
  define E where "E = drop_bit 3 (uint v) AND 15"
  define sg :: int where "sg = (if drop_bit 7 (uint v) AND 1 \<noteq> 0 then - 1 else 1)"
  have k: "0 \<le> k" "k \<le> 7" and E: "0 \<le> E" "E \<le> 15"
    using field_bounds [of v] by (simp_all add: k_def E_def)
  have p: "(2::rat) powi (E - 7) = 8 * 2 powi (E - 10)"
    using powi2_add [of 3 "E - 10"] by simp
  have "decode_value v = of_int sg * (1 + of_int k / 8) * 2 powi (E - 7)"
    using False by (simp add: decode_value_def k_def E_def sg_def)
  also have "\<dots> = of_int (sg * (8 + k)) * 2 powi (E - 10)"
    by (simp add: p field_simps)
  finally have "decode_value v = of_int (sg * (8 + k)) * 2 powi (E - 10)" .
  moreover have "\<bar>sg * (8 + k)\<bar> \<le> 15" using k by (simp add: sg_def abs_mult)
  moreover have "- 10 \<le> E - 10" "E - 10 \<le> 5" using E by simp_all
  ultimately show ?thesis by blast
qed

lemma decode_value_bound: "\<bar>decode_value v\<bar> \<le> 480"
proof -
  obtain n j where v: "decode_value v = of_int n * 2 powi j" and n: "\<bar>n\<bar> \<le> 15" and j: "j \<le> 5"
    using decode_value_repr [of v] by blast
  have "\<bar>decode_value v\<bar> = of_int \<bar>n\<bar> * 2 powi j" by (simp add: v abs_mult)
  also have "\<dots> \<le> of_int 15 * 2 powi j"
    using n by (intro mult_right_mono) (simp_all only: of_int_le_iff zero_le_power_int zero_le_numeral)
  also have "\<dots> \<le> of_int 15 * 2 powi 5"
    using j by (intro mult_left_mono) (simp_all add: powi2_le_iff del: power_int_numeral)
  finally show ?thesis by simp
qed

lemma decode_add_exact:
  "round32 (decode_value a + decode_value b) = Finite (decode_value a + decode_value b)"
proof -
  obtain n j where a: "decode_value a = of_int n * 2 powi j" and n: "\<bar>n\<bar> \<le> 15" and j: "- 10 \<le> j" "j \<le> 5"
    using decode_value_repr [of a] by blast
  obtain m i where b: "decode_value b = of_int m * 2 powi i" and m: "\<bar>m\<bar> \<le> 15" and i: "- 10 \<le> i" "i \<le> 5"
    using decode_value_repr [of b] by blast
  define N where "N = n * 2 ^ nat (j + 10) + m * 2 ^ nat (i + 10)"
  have sh: "(2::rat) powi l = of_int (2 ^ nat (l + 10)) * 2 powi (- 10)" if "- 10 \<le> l" for l
  proof -
    have "(2::rat) powi l = 2 powi (l + 10) * 2 powi (- 10)"
      by (simp only: powi2_add [symmetric]) simp
    also have "(2::rat) powi (l + 10) = of_int (2 ^ nat (l + 10))"
      using that by (simp add: power_int_nonneg_exp)
    finally show ?thesis .
  qed
  have sum: "decode_value a + decode_value b = of_int N * 2 powi (- 10)"
    unfolding a b N_def by (subst sh [OF j(1)], subst sh [OF i(1)]) (simp add: algebra_simps)
  have pw: "(2::int) ^ nat (l + 10) \<le> 2 ^ 15" if "l \<le> 5" for l
    using that by (intro power_increasing) simp_all
  have "\<bar>n * 2 ^ nat (j + 10)\<bar> \<le> 15 * 2 ^ 15"
    unfolding abs_mult using n pw [OF j(2)] by (intro mult_mono) simp_all
  moreover have "\<bar>m * 2 ^ nat (i + 10)\<bar> \<le> 15 * 2 ^ 15"
    unfolding abs_mult using m pw [OF i(2)] by (intro mult_mono) simp_all
  ultimately have "\<bar>N\<bar> < 2 ^ 24" unfolding N_def by simp
  from round32_exact_small [OF this, of "- 10"] show ?thesis unfolding sum by simp
qed

lemma decode_mul_exact:
  "round32 (decode_value a * decode_value b) = Finite (decode_value a * decode_value b)"
proof -
  obtain n j where a: "decode_value a = of_int n * 2 powi j" and n: "\<bar>n\<bar> \<le> 15" and j: "- 10 \<le> j" "j \<le> 5"
    using decode_value_repr [of a] by blast
  obtain m i where b: "decode_value b = of_int m * 2 powi i" and m: "\<bar>m\<bar> \<le> 15" and i: "- 10 \<le> i" "i \<le> 5"
    using decode_value_repr [of b] by blast
  have prod: "decode_value a * decode_value b = of_int (n * m) * 2 powi (j + i)"
    unfolding a b by (simp add: powi2_add)
  have "\<bar>n * m\<bar> \<le> 15 * 15" unfolding abs_mult using n m by (intro mult_mono) simp_all
  then have "\<bar>n * m\<bar> < 2 ^ 24" by simp
  from round32_exact_small [OF this, of "j + i"] j i show ?thesis unfolding prod by simp
qed

lemma roundtrip_overshoot:
  assumes "is_float32 x" and "x \<noteq> 0" and "0 < biasedExp x" and "biasedExp x < 16"
  shows "\<exists>y. roundtrip x = Some (Finite y) \<and> 15 / 8 * \<bar>x\<bar> < \<bar>y\<bar> \<and> \<bar>y\<bar> \<le> 3 * \<bar>x\<bar>"
proof -
  define m where "m = frexp_mant x"
  define e where "e = frexp_exp x"
  define k where "k = \<lfloor>m * 8\<rfloor>"
  define y where "y = (if x < 0 then - 1 else 1) * (1 + of_int k / 8) * (2::rat) powi (biasedExp x - 7)"
  have r: "roundtrip x = Some (Finite y)"
    using roundtrip_normal [OF assms] by (simp add: y_def k_def m_def)
  have mb: "1 / 2 \<le> m" "m < 1" using frexp_mant_bounds [OF assms(2)] by (simp_all add: m_def)
  have kb: "of_int k \<le> m * 8" "m * 8 < of_int k + 1"
    unfolding k_def by linarith+
  have p: "0 < (2::rat) powi e" by simp
  have ax: "\<bar>x\<bar> = m * 2 powi e"
    by (simp add: m_def e_def frexp_mant_def frexp_exp_abs)
  have k0: "0 \<le> (of_int k :: rat)" using floor_mant_bounds(1) [OF assms(2)] by (simp add: k_def m_def)
  have ay: "\<bar>y\<bar> = (1 + of_int k / 8) * 2 powi e"
    using k0 by (simp add: y_def abs_mult biasedExp_def frexp_exp_abs e_def)
  have "15 / 8 * m < 1 + of_int k / 8" using mb kb by simp
  then have 1: "15 / 8 * \<bar>x\<bar> < \<bar>y\<bar>"
    unfolding ax ay using p by (simp add: mult_strict_right_mono del: times_divide_eq_left)
  have "1 + of_int k / 8 \<le> 3 * m" using mb kb by simp
  then have 2: "\<bar>y\<bar> \<le> 3 * \<bar>x\<bar>"
    unfolding ax ay using p by (simp add: mult_right_mono)
  show ?thesis using r 1 2 by blast
qed

section \<open>The loops of the workload\<close>

text \<open>
  Every index below 1000 is a binary32 value, so each write of the loops is defined; the
  loops return, and they do not touch the counters.
\<close>

lemma Float8_of_index:
  assumes "j < 2 ^ 24"
  shows "\<exists>v. Float8 (int_to_float (int j)) = Some v"
proof -
  have b: "\<bar>int j\<bar> < 2 ^ 24" using assms by simp
  have "is_float32 (of_int (int j) * 2 powi 0)"
    by (rule is_float32_intro) (use b in simp_all)
  then have "is_float32 (of_int (int j))" by simp
  then show ?thesis using Float8_total int_to_float_exact [OF b] by simp
qed

lemma write_loop_total:
  assumes "\<forall>j \<in> set js. j < length data \<and> j < 2 ^ 24"
  shows "\<exists>d. write_loop js data = Some d \<and> length d = length data"
  using assms
proof (induction js arbitrary: data)
  case Nil
  then show ?case by simp
next
  case (Cons j js)
  from Cons.prems have j: "j < length data" "j < 2 ^ 24" by simp_all
  obtain v where v: "Float8 (int_to_float (int j)) = Some v"
    using Float8_of_index [OF j(2)] by blast
  have "\<forall>i \<in> set js. i < length (data[j := v]) \<and> i < 2 ^ 24" using Cons.prems by simp
  from Cons.IH [OF this] show ?case using j v by simp
qed

lemma inner_loop_total:
  assumes "length data = 1000"
  shows "\<exists>d. write_loop [0..<1000] data = Some d \<and> length d = 1000"
proof -
  have "\<forall>j \<in> set [0..<1000]. j < length data \<and> j < 2 ^ 24" using assms by simp
  from write_loop_total [OF this] show ?thesis using assms by simp
qed

lemma outer_loop_total:
  assumes "length data = 1000"
  shows "\<exists>d. outer_loop n data = Some d \<and> length d = 1000"
  using assms
proof (induction n arbitrary: data)
  case 0
  then show ?case by simp
next
  case (Suc n)
  obtain d where d: "write_loop [0..<1000] data = Some d" "length d = 1000"
    using inner_loop_total [OF Suc.prems] by blast
  from Suc.IH [OF d(2)] show ?case using d(1) by simp
qed

lemma optimizedMemoryUsage_iters_result:
  "optimizedMemoryUsage_iters iters cookie s =
     Some (delete_array cookie 1000 (allocate (array_size cookie 1000) s))"
proof -
  have z: "Float8 (Finite 0) = Some 0" by (simp add: Float8_def)
  obtain d where "outer_loop iters (replicate 1000 0) = Some d"
    using outer_loop_total [of "replicate 1000 0" iters] by auto
  then show ?thesis by (simp add: optimizedMemoryUsage_iters_def new_array_def z)
qed

section \<open>The properties of the specification\<close>

text \<open>
  Claim C1 (round trip within one mantissa step, relative error at most about 1/8, in the
  normal range). The code does not have the property. The constructor stores the mantissa
  of \<^verbatim>\<open>frexp\<close>, which lies in \<open>[1/2, 1)\<close>, and its exponent, while
  \<^verbatim>\<open>operator float()\<close> reads the field as the fraction of a significand in \<open>[1, 2)\<close>.
  At the input 1.0, which is the value of the byte \<open>0x38\<close> and whose biased exponent 8
  is in the normal range, the byte is \<open>0x44\<close> and it decodes to 3.0. (Lemma
  \<open>roundtrip_overshoot\<close>: on the whole normal path the decoded magnitude is more than
  15/8 of the input's.)
\<close>

theorem C1_roundtrip_at_one:
  "is_float32 1 \<and> decode_value 0x38 = 1 \<and> biasedExp 1 = 8
   \<and> Float8 (Finite 1) = Some 0x44 \<and> operator_float 0x44 = Finite 3
   \<and> roundtrip 1 = Some (Finite 3) \<and> \<not> \<bar>3 - 1 :: rat\<bar> \<le> 1 / 8 * \<bar>1\<bar>"
  by code_simp

text \<open>
  Claim C2 (on the normal path the mantissa field is \<open>floor((m * 2 - 1) * 8)\<close> for the
  mantissa \<open>m\<close> of \<^verbatim>\<open>frexp\<close>; sign in bit 7, exponent in bits 6-3, mantissa in bits
  2-0). The code stores \<open>floor(m * 8)\<close> instead: at the input 1.0, \<^verbatim>\<open>frexp\<close> gives
  \<open>m = 1/2\<close>, the claimed field is 0 and the stored field is 4.
\<close>

theorem C2_mantissa_field_at_one:
  "frexp (Finite 1) = Some (Finite (1 / 2), 1) \<and> biasedExp 1 = 8
   \<and> Float8 (Finite 1) = Some 0x44 \<and> uint (0x44 :: float8) AND 7 = 4
   \<and> spec_mantissa_field (1 / 2) = 0"
  by code_simp

text \<open>
  Claim C3 (an input whose biased exponent is at least 16 decodes, after encoding, to the
  maximum magnitude 480 with the sign of the input). As stated it fails: the overflow
  branch stores exponent field 15 and mantissa field 0, which decodes to 256, while the
  largest magnitude of the format, that of the byte \<open>0x7F\<close>, is 480.
\<close>

theorem C3_saturation_counterexample:
  "is_float32 1000 \<and> 16 \<le> biasedExp 1000 \<and> decode_value 0x7F = 480
   \<and> roundtrip 1000 = Some (Finite 256) \<and> roundtrip 1000 \<noteq> Some (Finite 480)"
  by code_simp

text \<open>
  Claim C3, amended: an input whose biased exponent is at least 16 decodes, after
  encoding, to 256 with the sign of the input; so neither to zero nor to an unbounded
  value.
\<close>

theorem C3_overflow_decodes_to_256:
  assumes "16 \<le> biasedExp x"
  shows "roundtrip x = Some (Finite (if x < 0 then - 256 else 256))"
proof -
  have "x \<noteq> 0" using assms by (auto simp: biasedExp_def frexp_exp_def)
  then show ?thesis using assms by (rule roundtrip_overflow)
qed

theorem C3_overflow_witness:
  "16 \<le> biasedExp (- 1000) \<and> roundtrip (- 1000) = Some (Finite (- 256))"
proof -
  have h: "16 \<le> biasedExp (- 1000)" by code_simp
  show ?thesis using C3_overflow_decodes_to_256 [OF h] h by simp
qed

text \<open>
  Claim C4 (a nonzero input below the minimum normal value, about \<open>2^-6\<close>, is encoded as
  the zero byte). As stated it fails: the smallest normal value of the format, that of
  the byte \<open>0x08\<close>, is \<open>2^-6\<close>, and the input \<open>2^-7\<close> below it is encoded as \<open>0x0C\<close>.
\<close>

theorem C4_underflow_counterexample:
  "is_float32 (1 / 128) \<and> (1 / 128 :: rat) \<noteq> 0 \<and> decode_value 0x08 = 1 / 64
   \<and> \<bar>1 / 128 :: rat\<bar> < decode_value 0x08
   \<and> Float8 (Finite (1 / 128)) = Some 0x0C \<and> (0x0C :: float8) \<noteq> 0"
  by code_simp

text \<open>
  Claim C4, amended: a nonzero input of magnitude below \<open>2^-7\<close> has a biased exponent of
  at most 0 and is encoded as the zero byte.
\<close>

theorem C4_flush_below_2_pow_minus_7:
  assumes "x \<noteq> 0" and "\<bar>x\<bar> < 1 / 128"
  shows "biasedExp x \<le> 0 \<and> Float8 (Finite x) = Some 0"
  using biasedExp_small [OF assms] Float8_underflow [OF assms(1)] by simp

theorem C4_flush_witness:
  "(1 / 256 :: rat) \<noteq> 0 \<and> \<bar>1 / 256 :: rat\<bar> < 1 / 128
   \<and> biasedExp (1 / 256) \<le> 0 \<and> Float8 (Finite (1 / 256)) = Some 0"
proof -
  have h1: "(1 / 256 :: rat) \<noteq> 0" by simp
  have h2: "\<bar>1 / 256 :: rat\<bar> < 1 / 128" by simp
  show ?thesis using C4_flush_below_2_pow_minus_7 [OF h1 h2] h1 h2 by simp
qed

text \<open>
  Claim C5 (a positive input decodes, after encoding, to a positive value, a negative one
  to a negative value). As stated it fails: the positive input \<open>2^-8\<close> is flushed to the
  zero byte, which decodes to 0.
\<close>

theorem C5_sign_counterexample:
  "is_float32 (1 / 256) \<and> 0 < (1 / 256 :: rat) \<and> roundtrip (1 / 256) = Some (Finite 0)
   \<and> \<not> (0 :: rat) < 0"
  by code_simp

text \<open>
  Claim C5, amended: an input of magnitude at least \<open>2^-7\<close> (one that is not flushed to
  zero) decodes, after encoding, to a value of the same sign.
\<close>

theorem C5_sign_kept_from_2_pow_minus_7:
  assumes "is_float32 x" and "1 / 128 \<le> \<bar>x\<bar>"
  shows "\<exists>y. roundtrip x = Some (Finite y) \<and> sgn y = sgn x"
proof -
  have x0: "x \<noteq> 0" using assms(2) by auto
  have lo: "0 < biasedExp x" using biasedExp_large [OF assms(2)] .
  show ?thesis
  proof (cases "16 \<le> biasedExp x")
    case True
    then show ?thesis using roundtrip_overflow [OF x0] x0 by (simp add: sgn_if)
  next
    case False
    then have hi: "biasedExp x < 16" by simp
    define k where "k = \<lfloor>frexp_mant x * 8\<rfloor>"
    define c where "c = (1 + of_int k / 8) * (2::rat) powi (biasedExp x - 7)"
    have "0 \<le> (of_int k :: rat)"
      using floor_mant_bounds(1) [OF x0] by (simp add: k_def)
    then have "0 < 1 + (of_int k :: rat) / 8" by (intro add_pos_nonneg) simp_all
    then have c: "0 < c" unfolding c_def by (intro mult_pos_pos) simp_all
    have "roundtrip x = Some (Finite ((if x < 0 then - 1 else 1) * c))"
      using roundtrip_normal [OF assms(1) x0 lo hi] by (simp add: c_def k_def mult.assoc)
    moreover have "sgn ((if x < 0 then - 1 else 1) * c) = sgn x"
      using c x0 by (simp add: sgn_if)
    ultimately show ?thesis by blast
  qed
qed

theorem C5_sign_witness:
  "is_float32 (- 3) \<and> 1 / 128 \<le> \<bar>- 3 :: rat\<bar>
   \<and> (\<exists>y. roundtrip (- 3) = Some (Finite y) \<and> y < 0)"
proof -
  have h1: "is_float32 (- 3)" by code_simp
  have h2: "1 / 128 \<le> \<bar>- 3 :: rat\<bar>" by simp
  from C5_sign_kept_from_2_pow_minus_7 [OF h1 h2]
  obtain y where "roundtrip (- 3) = Some (Finite y)" and "sgn y = sgn (- 3 :: rat)" by blast
  then have "roundtrip (- 3) = Some (Finite y) \<and> y < 0" by (simp add: sgn_if split: if_splits)
  then show ?thesis using h1 h2 by blast
qed

text \<open>
  Claim C6 (for all bytes \<open>a\<close> and \<open>b\<close>, \<open>add\<close> is the encoding of the sum and
  \<open>multiply\<close> the encoding of the product of the decoded values). The operators of the
  code compute the sum and the product in binary32; they agree with the specification's
  functions on the exact sum and product, because neither operation rounds on decoded
  bytes, and they always return a byte.
\<close>

theorem C6_operators_refine_spec:
  "operator_plus a b = spec_add a b \<and> operator_times a b = spec_multiply a b
   \<and> (\<exists>v. operator_plus a b = Some v) \<and> (\<exists>w. operator_times a b = Some w)"
proof -
  have p: "operator_plus a b = spec_add a b"
    by (simp add: operator_plus_def spec_add_def operator_float_exact decode_add_exact)
  have t: "operator_times a b = spec_multiply a b"
    by (simp add: operator_times_def spec_multiply_def operator_float_exact decode_mul_exact)
  have "is_float32 (decode_value a + decode_value b)"
    unfolding is_float32_def by (rule decode_add_exact)
  then have ps: "\<exists>v. spec_add a b = Some v"
    unfolding spec_add_def by (rule Float8_total)
  have "is_float32 (decode_value a * decode_value b)"
    unfolding is_float32_def by (rule decode_mul_exact)
  then have ts: "\<exists>w. spec_multiply a b = Some w"
    unfolding spec_multiply_def by (rule Float8_total)
  show ?thesis using p t ps ts by simp
qed

text \<open>
  Claim C7 (zero is encoded as the zero byte, and the zero byte decodes to exactly 0).
\<close>

theorem C7_zero_fixed_point:
  "Float8 (Finite 0) = Some 0 \<and> operator_float 0 = Finite 0"
  by (simp add: Float8_def operator_float_def)

text \<open>
  Claim C8 (the byte encoded for a finite input decodes to a finite float, never to NaN or
  an infinity). For every binary32 value the constructor yields a byte, and the byte
  decodes to a finite value, of magnitude at most 480.
\<close>

theorem C8_encoded_byte_decodes_finite:
  assumes "is_float32 x"
  shows "\<exists>v y. Float8 (Finite x) = Some v \<and> operator_float v = Finite y \<and> \<bar>y\<bar> \<le> 480"
  using Float8_total [OF assms] operator_float_exact decode_value_bound by blast

theorem C8_finite_witness:
  "is_float32 (13421773 / 134217728)
   \<and> (\<exists>v y. Float8 (Finite (13421773 / 134217728)) = Some v \<and> operator_float v = Finite y
              \<and> \<bar>y\<bar> \<le> 480)"
proof -
  have h: "is_float32 (13421773 / 134217728)" by code_simp
  show ?thesis using C8_encoded_byte_decodes_finite [OF h] h by simp
qed

text \<open>
  Claim C9 (from reset counters the optimized workload allocates exactly
  \<open>1000 * sizeof(Float8)\<close> bytes in one allocation and frees the same in one free,
  whatever the number of iterations). As stated it fails where the array form of
  \<^verbatim>\<open>new\<close> adds its overhead to the request: with the cookie of 8 bytes the totals are
  1008.
\<close>

theorem C9_counterexample:
  "optimizedMemoryUsage 8 \<lparr>totalAllocated = 0, totalFreed = 0, memCalls = []\<rparr>
     = Some \<lparr>totalAllocated = 1008, totalFreed = 1008, memCalls = [Malloc 1008, Free]\<rparr>
   \<and> (1008 :: size_t) \<noteq> 1000 * sizeof_Float8"
  by (simp add: optimizedMemoryUsage_def optimizedMemoryUsage_iters_result delete_array_def
      allocate_def deallocate_def array_size_def sizeof_Float8_def)

text \<open>
  Claim C9, amended: from reset counters the optimized workload returns, with the same
  final state for every number of outer iterations; it calls \<^verbatim>\<open>malloc\<close> once and
  \<^verbatim>\<open>free\<close> once, and both totals are the size of that one request,
  \<open>1000 * sizeof(Float8)\<close> plus the overhead of the array form of \<^verbatim>\<open>new\<close>.
\<close>

theorem C9_one_allocation_any_iteration_count:
  "\<exists>s'. optimizedMemoryUsage cookie (resetMemoryTracking s) = Some s'
       \<and> optimizedMemoryUsage_iters iters cookie (resetMemoryTracking s) = Some s'
       \<and> totalAllocated s' = 1000 * sizeof_Float8 + cookie
       \<and> totalFreed s' = 1000 * sizeof_Float8 + cookie
       \<and> memCalls s' = memCalls s @ [Malloc (1000 * sizeof_Float8 + cookie), Free]"
  by (simp add: optimizedMemoryUsage_def optimizedMemoryUsage_iters_result delete_array_def
      allocate_def deallocate_def array_size_def resetMemoryTracking_def)

text \<open>
  Claim C10 (on the normal path the mantissa field is one of 4, 5, 6, 7, so the byte
  decodes with a significand \<open>1 + field / 8\<close> of at least 1.5).
\<close>

theorem C10_normal_mantissa_field:
  assumes "is_float32 x" and "x \<noteq> 0" and "0 < biasedExp x" and "biasedExp x < 16"
  shows "\<exists>v. Float8 (Finite x) = Some v
           \<and> uint v AND 7 \<in> {4, 5, 6, 7}
           \<and> 3 / 2 \<le> 1 + (of_int (uint v AND 7) :: rat) / 8
           \<and> operator_float v =
               Finite ((if x < 0 then - 1 else 1) * (1 + of_int (uint v AND 7) / 8)
                       * 2 powi (biasedExp x - 7))"
proof -
  define k where "k = \<lfloor>frexp_mant x * 8\<rfloor>"
  define s :: int where "s = (if x < 0 then 1 else 0)"
  define v :: float8 where "v = word_of_int (pack s (biasedExp x) k)"
  note m = floor_mant_bounds [OF assms(2), folded k_def]
  have k: "0 \<le> k" "k \<le> 7" using m by simp_all
  have E: "0 \<le> biasedExp x" "biasedExp x \<le> 15" using assms(3,4) by simp_all
  have s: "0 \<le> s" "s \<le> 1" by (simp_all add: s_def)
  have enc: "Float8 (Finite x) = Some v"
    using Float8_normal_pack [OF assms] by (simp add: v_def s_def k_def)
  have fld: "uint v AND 7 = k" using pack_fields(2) [OF s E k] by (simp add: v_def)
  have dec0: "operator_float v =
      Finite ((if x < 0 then - 1 else 1) * (1 + of_int k / 8) * 2 powi (biasedExp x - 7))"
    unfolding operator_float_exact v_def decode_value_pack [OF s assms(3) E(2) k]
    by (simp add: s_def)
  have dec: "operator_float v =
      Finite ((if x < 0 then - 1 else 1) * (1 + of_int (uint v AND 7) / 8)
              * 2 powi (biasedExp x - 7))"
    unfolding fld by (rule dec0)
  have mem: "uint v AND 7 \<in> {4, 5, 6, 7}" unfolding fld using m by auto
  have sig: "3 / 2 \<le> 1 + (of_int (uint v AND 7) :: rat) / 8"
  proof -
    have "(of_int 4 :: rat) \<le> of_int k" using m(1) by (simp only: of_int_le_iff)
    then show ?thesis unfolding fld by simp
  qed
  show ?thesis using enc mem sig dec by blast
qed

theorem C10_mantissa_witness:
  "is_float32 1 \<and> (1 :: rat) \<noteq> 0 \<and> 0 < biasedExp 1 \<and> biasedExp 1 < 16
   \<and> (\<exists>v. Float8 (Finite 1) = Some v \<and> uint v AND 7 \<in> {4, 5, 6, 7})"
proof -
  have h1: "is_float32 1" by code_simp
  have h2: "(1 :: rat) \<noteq> 0" by simp
  have h3: "0 < biasedExp 1" by code_simp
  have h4: "biasedExp 1 < 16" by code_simp
  from C10_normal_mantissa_field [OF h1 h2 h3 h4]
  have "\<exists>v. Float8 (Finite 1) = Some v \<and> uint v AND 7 \<in> {4, 5, 6, 7}" by blast
  then show ?thesis using h1 h2 h3 h4 by blast
qed

end
